theory Spec2Isabelle
  imports Main "HOL-Library.Sublist"
begin

section \<open>Data model\<close>

text \<open>
  The terminal dashboard of \<^verbatim>\<open>main.go\<close>: a Bubble Tea program whose \<^verbatim>\<open>Update\<close>
  method is the event reducer and whose \<^verbatim>\<open>renderEC2\<close> method filters the loaded
  instances. Go slices are lists, a \<^verbatim>\<open>nil\<close> error or pointer is \<^term>\<open>None\<close>.

  Go strings come in two kinds here. The strings the program only compares or passes
  on (key names, regions, error messages, identifiers) are \<^typ>\<open>string\<close>. The strings
  whose characters matter, because \<^verbatim>\<open>strings.ToLower\<close> maps them code point by code
  point and the text input counts them, are sequences of Unicode code points: the
  filter text is \<^verbatim>\<open>string(runes)\<close> of the text input and the tags and states are text
  decoded from the service's answer, so each is the UTF-8 of such a sequence, and on
  UTF-8 text equality, \<^verbatim>\<open>strings.Contains\<close> and \<^verbatim>\<open>strings.SplitN\<close> at \<^verbatim>\<open>=\<close> agree with
  the same operations on the code points.
\<close>

type_synonym rune = nat

type_synonym runes = "rune list"

text \<open>An ASCII literal as a sequence of code points.\<close>

definition S :: "string \<Rightarrow> runes" where
  "S cs = map of_char cs"

datatype screen = ec2Screen | s3Screen | eksScreen

text \<open>
  \<^verbatim>\<open>aws.Instance\<close> is declared in the package \<^verbatim>\<open>internal/aws\<close>; the fields below are
  the ones \<^verbatim>\<open>main.go\<close> reads. \<^verbatim>\<open>renderEC2\<close> ranges over \<^verbatim>\<open>inst.Tags\<close> and reads
  \<^verbatim>\<open>tag.Key\<close> and \<^verbatim>\<open>tag.Value\<close>, so the tags are a sequence of key/value pairs.
\<close>

record tag =
  Key :: runes
  Value :: runes

record Instance =
  ID :: string
  Name :: string
  State :: runes
  InstanceType :: string
  PublicIP :: string
  PrivateIP :: string
  Tags :: "tag list"

text \<open>\<^verbatim>\<open>config.Config\<close>: the fields \<^verbatim>\<open>Update\<close> reads and writes.\<close>

record config =
  Region :: string
  Regions :: "string list"

text \<open>An \<^verbatim>\<open>*aws.Client\<close>, identified by the region it was built for.\<close>

datatype client = Client string

type_synonym error = string

text \<open>
  \<^verbatim>\<open>textinput.Model\<close> of the bubbles library: the public fields \<^verbatim>\<open>initialModel\<close> sets,
  its focus flag and the runes it holds (\<^verbatim>\<open>Value()\<close> is their string).
\<close>

record textinput =
  Placeholder :: string
  CharLimit :: nat
  Width :: nat
  ti_focus :: bool
  ti_value :: runes

record model =
  currentScreen :: screen
  width :: int
  height :: int
  awsClient :: "client option"
  ec2Instances :: "Instance list"
  loading :: bool
  err :: "error option"
  config :: config
  filterInput :: textinput
  filtering :: bool
  filter_m :: runes

section \<open>The filter of \<^verbatim>\<open>renderEC2\<close>\<close>

subsection \<open>The functions of package \<^verbatim>\<open>strings\<close> that the filter calls\<close>

text \<open>
  \<^verbatim>\<open>strings.Index(s, substr)\<close>: the position of the first occurrence of \<^verbatim>\<open>substr\<close> in
  \<^verbatim>\<open>s\<close>, or \<open>-1\<close>. (Go counts the position in bytes, the model in code points; the
  filter only tests it against \<open>0\<close> and cuts the text there.)
\<close>

fun Index :: "runes \<Rightarrow> runes \<Rightarrow> int" where
  "Index [] sub = (if sub = [] then 0 else - 1)"
| "Index (c # s) sub =
     (if prefix sub (c # s) then 0
      else (let i = Index s sub in if i < 0 then - 1 else i + 1))"

text \<open>\<^verbatim>\<open>strings.Contains(s, substr)\<close> is \<^verbatim>\<open>Index(s, substr) >= 0\<close>.\<close>

definition Contains :: "runes \<Rightarrow> runes \<Rightarrow> bool" where
  "Contains s sub = (0 \<le> Index s sub)"

text \<open>
  \<^verbatim>\<open>strings.SplitN(s, sep, 2)\<close> for a non-empty separator: cut at the first occurrence
  of \<^verbatim>\<open>sep\<close>, or return \<^verbatim>\<open>s\<close> alone when there is none.
\<close>

definition SplitN2 :: "runes \<Rightarrow> runes \<Rightarrow> runes list" where
  "SplitN2 s sep =
     (let m = Index s sep in
      if m < 0 then [s] else [take (nat m) s, drop (nat m + length sep) s])"

text \<open>
  \<^verbatim>\<open>unicode.ToLower(r)\<close>: an ASCII code point is lowered by arithmetic
  (\<^verbatim>\<open>if 'A' <= r && r <= 'Z' { r += 'a' - 'A' }\<close>); every other one is looked up in
  Unicode's table of lower-case mappings, \<^verbatim>\<open>unicode.To(unicode.LowerCase, r)\<close>. That
  table is the parameter \<open>tbl\<close>.
\<close>

definition unicode_ToLower :: "(rune \<Rightarrow> rune) \<Rightarrow> rune \<Rightarrow> rune" where
  "unicode_ToLower tbl r =
     (if r \<le> 127 then (if 65 \<le> r \<and> r \<le> 90 then r + 32 else r) else tbl r)"

text \<open>
  \<^verbatim>\<open>strings.ToLower(s)\<close> maps \<^verbatim>\<open>unicode.ToLower\<close> over the code points of \<^verbatim>\<open>s\<close> (its
  fast path for ASCII strings computes the same).
\<close>

definition ToLower :: "(rune \<Rightarrow> rune) \<Rightarrow> runes \<Rightarrow> runes" where
  "ToLower tbl s = map (unicode_ToLower tbl) s"

subsection \<open>The loops of \<^verbatim>\<open>renderEC2\<close>\<close>

text \<open>
  The inner loop over \<^verbatim>\<open>inst.Tags\<close>: the first tag that matches appends the instance
  and breaks.
\<close>

fun tagLoop ::
  "(rune \<Rightarrow> rune) \<Rightarrow> runes \<Rightarrow> runes \<Rightarrow> Instance \<Rightarrow> tag list \<Rightarrow> Instance list \<Rightarrow> Instance list"
where
  "tagLoop tbl tagKey tagValue inst [] acc = acc"
| "tagLoop tbl tagKey tagValue inst (t # ts) acc =
     (if Key t = tagKey \<and> Contains (ToLower tbl (Value t)) (ToLower tbl tagValue)
      then acc @ [inst]
      else tagLoop tbl tagKey tagValue inst ts acc)"

fun tagFilterLoop ::
  "(rune \<Rightarrow> rune) \<Rightarrow> runes \<Rightarrow> runes \<Rightarrow> Instance list \<Rightarrow> Instance list \<Rightarrow> Instance list"
where
  "tagFilterLoop tbl tagKey tagValue [] acc = acc"
| "tagFilterLoop tbl tagKey tagValue (inst # rest) acc =
     tagFilterLoop tbl tagKey tagValue rest (tagLoop tbl tagKey tagValue inst (Tags inst) acc)"

fun stateFilterLoop ::
  "(rune \<Rightarrow> rune) \<Rightarrow> runes \<Rightarrow> Instance list \<Rightarrow> Instance list \<Rightarrow> Instance list"
where
  "stateFilterLoop tbl f [] acc = acc"
| "stateFilterLoop tbl f (inst # rest) acc =
     stateFilterLoop tbl f rest
       (if Contains (ToLower tbl (State inst)) (ToLower tbl f) then acc @ [inst] else acc)"

text \<open>
  The block of \<^verbatim>\<open>renderEC2\<close> that computes \<^verbatim>\<open>filteredInstances\<close> from
  \<^verbatim>\<open>m.ec2Instances\<close> and \<^verbatim>\<open>m.filter\<close>. \<^term>\<open>None\<close> is the index-out-of-range panic
  that \<^verbatim>\<open>parts[1]\<close> would raise on a one-element \<^verbatim>\<open>parts\<close>.
\<close>

definition filteredInstances ::
  "(rune \<Rightarrow> rune) \<Rightarrow> Instance list \<Rightarrow> runes \<Rightarrow> Instance list option"
where
  "filteredInstances tbl insts f =
     (if f = [] then Some insts
      else if Contains f (S ''='')
      then (case SplitN2 f (S ''='') of
              tagKey # tagValue # _ \<Rightarrow> Some (tagFilterLoop tbl tagKey tagValue insts [])
            | _ \<Rightarrow> None)
      else Some (stateFilterLoop tbl f insts []))"

subsection \<open>The filter as the specification words it\<close>

text \<open>The code point of \<^verbatim>\<open>=\<close>.\<close>

definition eqRune :: rune where
  "eqRune = of_char CHR ''=''"

text \<open>
  The substring of the filter text before its first \<^verbatim>\<open>=\<close>, and the one after it.
\<close>

definition tagKeyOf :: "runes \<Rightarrow> runes" where
  "tagKeyOf f = takeWhile (\<lambda>c. c \<noteq> eqRune) f"

definition tagValueOf :: "runes \<Rightarrow> runes" where
  "tagValueOf f = tl (dropWhile (\<lambda>c. c \<noteq> eqRune) f)"

text \<open>
  Letter case, stated apart from the code. For ASCII it is the alphabet: each capital
  letter beside its small one. Beyond ASCII it is Unicode's table \<open>tbl\<close>. A character
  folds to its small form, and two characters are the same up to case when they fold to
  the same.
\<close>

definition asciiLetters :: "(rune \<times> rune) list" where
  "asciiLetters = zip (S ''ABCDEFGHIJKLMNOPQRSTUVWXYZ'') (S ''abcdefghijklmnopqrstuvwxyz'')"

definition caseFold :: "(rune \<Rightarrow> rune) \<Rightarrow> rune \<Rightarrow> rune" where
  "caseFold tbl r =
     (if r < 128 then (case map_of asciiLetters r of Some l \<Rightarrow> l | None \<Rightarrow> r) else tbl r)"

definition sameUpToCase :: "(rune \<Rightarrow> rune) \<Rightarrow> rune \<Rightarrow> rune \<Rightarrow> bool" where
  "sameUpToCase tbl a b = (caseFold tbl a = caseFold tbl b)"

text \<open>
  \<open>s\<close> contains \<open>t\<close> as a case-insensitive substring: some contiguous part of \<open>s\<close> is
  \<open>t\<close>, character by character, up to case.
\<close>

definition containsFold :: "(rune \<Rightarrow> rune) \<Rightarrow> runes \<Rightarrow> runes \<Rightarrow> bool" where
  "containsFold tbl s t = (\<exists>u. sublist u s \<and> list_all2 (sameUpToCase tbl) u t)"

text \<open>
  Three rows of Unicode's lower-case table, for the examples: U+00C9 (E acute) lowers
  to U+00E9, U+0130 (dotted capital I) to \<^verbatim>\<open>i\<close>, U+212A (Kelvin sign) to \<^verbatim>\<open>k\<close>.
\<close>

definition sampleTable :: "rune \<Rightarrow> rune" where
  "sampleTable r =
     (if r = 0xC9 then 0xE9 else if r = 0x130 then 0x69 else if r = 0x212A then 0x6B else r)"

text \<open>
  The two instances of the specification's example, a third with two tags, and a
  fourth whose tag value ends in U+00C9.
\<close>

definition instProd :: Instance where
  "instProd = \<lparr>ID = ''i-1'', Name = ''web'', State = S ''Running'', InstanceType = ''t3.micro'',
     PublicIP = [], PrivateIP = ''10.0.0.1'', Tags = [\<lparr>Key = S ''Env'', Value = S ''Prod''\<rparr>]\<rparr>"

definition instDev :: Instance where
  "instDev = \<lparr>ID = ''i-2'', Name = [], State = S ''stopped'', InstanceType = ''t3.micro'',
     PublicIP = [], PrivateIP = ''10.0.0.2'', Tags = [\<lparr>Key = S ''env'', Value = S ''dev''\<rparr>]\<rparr>"

definition instTwoTags :: Instance where
  "instTwoTags = \<lparr>ID = ''i-3'', Name = ''db'', State = S ''running'', InstanceType = ''m5.large'',
     PublicIP = [], PrivateIP = ''10.0.0.3'',
     Tags = [\<lparr>Key = S ''Env'', Value = S ''PRODUCTION''\<rparr>,
             \<lparr>Key = S ''Env'', Value = S ''prod=eu''\<rparr>]\<rparr>"

definition instCafe :: Instance where
  "instCafe = \<lparr>ID = ''i-4'', Name = ''bar'', State = S ''stopped'', InstanceType = ''t3.nano'',
     PublicIP = [], PrivateIP = ''10.0.0.4'',
     Tags = [\<lparr>Key = S ''Env'', Value = S ''CAF'' @ [0xC9]\<rparr>]\<rparr>"

section \<open>The event reducer \<^verbatim>\<open>Update\<close>\<close>

text \<open>
  The messages \<^verbatim>\<open>Update\<close> receives: the client that \<^verbatim>\<open>initAWSClient\<close> built, the
  result of a load, a key press (carrying what \<^verbatim>\<open>msg.String()\<close> returns), a resize, and
  any other message (those the text input's own commands produce).
\<close>

datatype msg =
  ClientMsg client
| instancesLoadedMsg "Instance list" "error option"
| KeyMsg string
| WindowSizeMsg int int
| OtherMsg nat

text \<open>
  The commands \<^verbatim>\<open>Update\<close> returns: \<^verbatim>\<open>nil\<close>, the method values \<^verbatim>\<open>m.initAWSClient\<close> and
  \<^verbatim>\<open>m.loadEC2Instances\<close>, \<^verbatim>\<open>tea.Quit\<close>, and whatever else the text input returns.
\<close>

datatype cmd = NoCmd | initAWSClient | loadEC2Instances | Quit | InputCmd nat

text \<open>
  The text input is the bubbles library's: its \<^verbatim>\<open>Update\<close> is a parameter \<open>tiu\<close> of the
  reducer throughout. \<^verbatim>\<open>textinput.New()\<close> and \<^verbatim>\<open>Focus()\<close> act on the fields above.
\<close>

type_synonym tiUpdate = "textinput \<Rightarrow> msg \<Rightarrow> textinput \<times> cmd"

definition textinput_New :: textinput where
  "textinput_New = \<lparr>Placeholder = [], CharLimit = 0, Width = 0, ti_focus = False, ti_value = []\<rparr>"

definition Focus :: "textinput \<Rightarrow> textinput" where
  "Focus t = t\<lparr>ti_focus := True\<rparr>"

definition initialModel :: "config \<Rightarrow> model" where
  "initialModel cfg =
     (let ti = Focus (textinput_New\<lparr>Placeholder := ''tag:key=value''\<rparr>);
          ti = ti\<lparr>CharLimit := 20, Width := 20\<rparr>
      in \<lparr>currentScreen = ec2Screen, width = 0, height = 0, awsClient = None,
          ec2Instances = [], loading = True, err = None, config = cfg,
          filterInput = ti, filtering = False, filter_m = []\<rparr>)"

text \<open>
  The loop of case \<^verbatim>\<open>"c"\<close>: \<^verbatim>\<open>currentIndex\<close> starts at \<open>-1\<close> and is set to the index of
  the first region equal to the current one, where the loop breaks.
\<close>

fun findIndex :: "string list \<Rightarrow> string \<Rightarrow> nat \<Rightarrow> int" where
  "findIndex [] region i = - 1"
| "findIndex (r # rs) region i = (if r = region then int i else findIndex rs region (Suc i))"

text \<open>\<^verbatim>\<open>(m.currentScreen + 1) % 3\<close> on the three screens \<open>0\<close>, \<open>1\<close>, \<open>2\<close>.\<close>

fun nextScreen :: "screen \<Rightarrow> screen" where
  "nextScreen ec2Screen = s3Screen"
| "nextScreen s3Screen = eksScreen"
| "nextScreen eksScreen = ec2Screen"

text \<open>The key switch of \<^verbatim>\<open>Update\<close> outside filter editing.\<close>

definition updateKey :: "model \<Rightarrow> string \<Rightarrow> model \<times> cmd" where
  "updateKey m k =
     (if k = ''ctrl+c'' \<or> k = ''q'' then (m, Quit)
      else if k = ''1'' then (m\<lparr>currentScreen := ec2Screen\<rparr>, NoCmd)
      else if k = ''2'' then (m\<lparr>currentScreen := s3Screen\<rparr>, NoCmd)
      else if k = ''3'' then (m\<lparr>currentScreen := eksScreen\<rparr>, NoCmd)
      else if k = ''c'' then
        (let currentIndex = findIndex (Regions (config m)) (Region (config m)) 0 in
         if currentIndex \<noteq> - 1 then
           (let nextIndex = (currentIndex + 1) mod int (length (Regions (config m))) in
            (m\<lparr>config := (config m)\<lparr>Region := Regions (config m) ! nat nextIndex\<rparr>,
               loading := True\<rparr>, initAWSClient))
         else (m, NoCmd))
      else if k = ''tab'' then (m\<lparr>currentScreen := nextScreen (currentScreen m)\<rparr>, NoCmd)
      else if k = ''r'' then
        (if currentScreen m = ec2Screen then (m\<lparr>loading := True\<rparr>, loadEC2Instances)
         else (m, NoCmd))
      else if k = ''f'' then (m\<lparr>filtering := True, filterInput := Focus (filterInput m)\<rparr>, NoCmd)
      else (m, NoCmd))"

text \<open>
  \<^verbatim>\<open>model.Update\<close>. While \<^verbatim>\<open>m.filtering\<close> holds, every message but the keys
  \<^verbatim>\<open>enter\<close> and \<^verbatim>\<open>esc\<close> goes to the text input and the method returns.
\<close>

definition Update :: "tiUpdate \<Rightarrow> model \<Rightarrow> msg \<Rightarrow> model \<times> cmd" where
  "Update tiu m msg =
     (if filtering m then
        (if msg = KeyMsg ''enter''
         then (m\<lparr>filter_m := ti_value (filterInput m), filtering := False\<rparr>, NoCmd)
         else if msg = KeyMsg ''esc'' then (m\<lparr>filtering := False\<rparr>, NoCmd)
         else (case tiu (filterInput m) msg of (ti, c) \<Rightarrow> (m\<lparr>filterInput := ti\<rparr>, c)))
      else
        (case msg of
           ClientMsg cl \<Rightarrow> (m\<lparr>awsClient := Some cl\<rparr>, loadEC2Instances)
         | instancesLoadedMsg insts e \<Rightarrow>
             (let m1 = m\<lparr>loading := False, err := e\<rparr> in
              (if e = None then m1\<lparr>ec2Instances := insts\<rparr> else m1, NoCmd))
         | KeyMsg k \<Rightarrow> updateKey m k
         | WindowSizeMsg w h \<Rightarrow> (m\<lparr>width := w, height := h\<rparr>, NoCmd)
         | OtherMsg _ \<Rightarrow> (m, NoCmd)))"

text \<open>
  The tea runtime hands \<^verbatim>\<open>Update\<close> one message at a time, in the order of arrival, and
  carries out the command each step returns; what a command produces arrives as a later
  message. \<open>run\<close> is the state after a sequence of messages, from \<open>m\<close>.
\<close>

fun run :: "tiUpdate \<Rightarrow> model \<Rightarrow> msg list \<Rightarrow> model" where
  "run tiu m [] = m"
| "run tiu m (x # xs) = run tiu (fst (Update tiu m x)) xs"

text \<open>
  The load status the specification speaks of, read off the fields as \<^verbatim>\<open>renderEC2\<close>
  does: \<^verbatim>\<open>m.loading\<close> first, then \<^verbatim>\<open>m.err\<close>.
\<close>

datatype loadStatus = Loading | Ready | Failed error

definition loadStatusOf :: "model \<Rightarrow> loadStatus" where
  "loadStatusOf m =
     (if loading m then Loading else case err m of Some e \<Rightarrow> Failed e | None \<Rightarrow> Ready)"

text \<open>
  A line editor that stands for the library's text input wherever a concrete one is
  needed: a focused input appends a typed character while the limit allows it (a limit
  of \<open>0\<close> is none), deletes the last character on \<^verbatim>\<open>backspace\<close>, and ignores every
  other message; a step that changes the text returns the cursor's blink command,
  \<open>InputCmd 0\<close>. An unfocused input ignores everything.
\<close>

definition lineEdit :: tiUpdate where
  "lineEdit t msg =
     (if \<not> ti_focus t then (t, NoCmd)
      else (case msg of
              KeyMsg k \<Rightarrow>
                (if k = ''backspace'' then
                   (if ti_value t = [] then (t, NoCmd)
                    else (t\<lparr>ti_value := butlast (ti_value t)\<rparr>, InputCmd 0))
                 else if length k = 1 \<and> (CharLimit t = 0 \<or> length (ti_value t) < CharLimit t)
                 then (t\<lparr>ti_value := ti_value t @ S k\<rparr>, InputCmd 0)
                 else (t, NoCmd))
            | _ \<Rightarrow> (t, NoCmd)))"

text \<open>
  What the library documents of \<^verbatim>\<open>CharLimit\<close> (``the maximum amount of characters this
  input element will accept''; \<open>0\<close> or less is no limit): an update never changes the
  limit, and a value within a positive limit stays within it. The value is a slice of
  runes, so the limit counts characters, as \<^const>\<open>length\<close> does on \<^typ>\<open>runes\<close>.
\<close>

definition respectsCharLimit :: "tiUpdate \<Rightarrow> bool" where
  "respectsCharLimit tiu =
     (\<forall>t msg. CharLimit (fst (tiu t msg)) = CharLimit t
        \<and> (0 < CharLimit t \<and> length (ti_value t) \<le> CharLimit t
             \<longrightarrow> length (ti_value (fst (tiu t msg))) \<le> CharLimit t))"

text \<open>
  \<^verbatim>\<open>main\<close>: the exit status is \<open>1\<close> when \<^verbatim>\<open>config.LoadConfig\<close> returns an error and
  when \<^verbatim>\<open>p.Run()\<close> returns one; otherwise \<^verbatim>\<open>main\<close> returns and the status is \<open>0\<close>.
\<close>

definition main_exit :: "error option \<Rightarrow> error option \<Rightarrow> nat" where
  "main_exit configErr runErr =
     (if configErr \<noteq> None then 1 else if runErr \<noteq> None then 1 else 0)"

text \<open>
  \<^verbatim>\<open>tea.Quit\<close> tells the runtime to end the program: \<^verbatim>\<open>p.Run()\<close> then returns without
  an error and \<^verbatim>\<open>main\<close> returns. \<open>exitStatus\<close> is the exit status of the process once
  the messages have been handled in order, from a loaded configuration and the state
  \<open>m\<close>; \<^term>\<open>None\<close> says that the program is still running.
\<close>

fun exitStatus :: "tiUpdate \<Rightarrow> model \<Rightarrow> msg list \<Rightarrow> nat option" where
  "exitStatus tiu m [] = None"
| "exitStatus tiu m (x # xs) =
     (case Update tiu m x of
        (m', c) \<Rightarrow> if c = Quit then Some (main_exit None None) else exitStatus tiu m' xs)"

definition sampleConfig :: config where
  "sampleConfig = \<lparr>Region = ''eu-west-1'', Regions = [''us-east-1'', ''us-west-2'', ''eu-west-1'']\<rparr>"

text \<open>A configuration whose current region is not among the selectable ones.\<close>

definition strayRegion :: config where
  "strayRegion = \<lparr>Region = ''ap-south-1'', Regions = [''us-east-1'', ''us-west-2'']\<rparr>"

text \<open>
  Some states the program reaches: a refresh after a first successful load; the filter
  prompt opened on the S3 screen; the filter prompt opened while the first load is in
  flight; and the keys of a user who opens the prompt and types 25 letters.
\<close>

definition afterRefresh :: model where
  "afterRefresh = run lineEdit (initialModel sampleConfig)
     [ClientMsg (Client ''eu-west-1''), instancesLoadedMsg [instProd] None, KeyMsg ''r'']"

definition onS3Filtering :: model where
  "onS3Filtering = run lineEdit (initialModel sampleConfig) [KeyMsg ''2'', KeyMsg ''f'']"

definition filteringWhileLoading :: model where
  "filteringWhileLoading =
     run lineEdit (initialModel sampleConfig) [ClientMsg (Client ''eu-west-1''), KeyMsg ''f'']"

definition longTyping :: "msg list" where
  "longTyping = KeyMsg ''f'' # replicate 25 (KeyMsg ''a'')"

text \<open>The prompt opened, \<^verbatim>\<open>x\<close> typed, and the prompt left with \<^verbatim>\<open>esc\<close>.\<close>

definition typedThenEsc :: "msg list" where
  "typedThenEsc = [KeyMsg ''f'', KeyMsg ''x'', KeyMsg ''esc'']"

text \<open>The first index of \<open>x\<close> in \<open>xs\<close>, as the specification's \<open>index_of\<close>.\<close>

definition index_of :: "'a list \<Rightarrow> 'a \<Rightarrow> nat" where
  "index_of xs x = length (takeWhile (\<lambda>y. y \<noteq> x) xs)"

section \<open>The filter engine\<close>

subsection \<open>The library functions\<close>

lemma Index_nonneg_iff: "0 \<le> Index s sub \<longleftrightarrow> sublist sub s"
  by (induction s) (auto simp: Let_def sublist_Cons_right)

lemma Contains_iff_sublist: "Contains s sub \<longleftrightarrow> sublist sub s"
  by (simp add: Contains_def Index_nonneg_iff)

lemma Index_char:
  "Index s [c] = (if c \<in> set s then int (length (takeWhile (\<lambda>x. x \<noteq> c) s)) else - 1)"
  by (induction s) (auto simp: Let_def)

lemma Contains_char: "Contains s [c] \<longleftrightarrow> c \<in> set s"
  by (simp add: Contains_def Index_char)

lemma S_equals: "S ''='' = [eqRune]"
  by (simp add: S_def eqRune_def)

lemma drop_Suc_takeWhile:
  "drop (Suc (length (takeWhile P s))) s = tl (dropWhile P s)"
proof -
  have "drop (Suc (length (takeWhile P s))) s = tl (drop (length (takeWhile P s)) s)"
    by (simp add: drop_Suc tl_drop)
  also have "\<dots> = tl (dropWhile P s)"
    by (simp add: dropWhile_eq_drop [symmetric])
  finally show ?thesis .
qed

lemma SplitN2_char:
  assumes "c \<in> set s"
  shows "SplitN2 s [c] = [takeWhile (\<lambda>x. x \<noteq> c) s, tl (dropWhile (\<lambda>x. x \<noteq> c) s)]"
proof -
  have "Index s [c] = int (length (takeWhile (\<lambda>x. x \<noteq> c) s))"
    using assms by (simp add: Index_char)
  then show ?thesis
    by (simp add: SplitN2_def Let_def takeWhile_eq_take [symmetric] drop_Suc_takeWhile)
qed

lemma split_at_first:
  "c \<in> set s \<Longrightarrow> s = takeWhile (\<lambda>x. x \<noteq> c) s @ c # tl (dropWhile (\<lambda>x. x \<noteq> c) s)"
  by (induction s) auto

subsection \<open>Letter case\<close>

text \<open>The alphabet pairs exactly the code points \<open>65\<close> to \<open>90\<close> with those 32 above.\<close>

lemma asciiLetters_val:
  "map_of asciiLetters r = (if 65 \<le> r \<and> r \<le> 90 then Some (r + 32) else None)"
proof (cases "65 \<le> r \<and> r \<le> 90")
  case True
  then have "r = 65 \<or> r = 66 \<or> r = 67 \<or> r = 68 \<or> r = 69 \<or> r = 70 \<or>
        r = 71 \<or> r = 72 \<or> r = 73 \<or> r = 74 \<or> r = 75 \<or> r = 76 \<or>
        r = 77 \<or> r = 78 \<or> r = 79 \<or> r = 80 \<or> r = 81 \<or> r = 82 \<or>
        r = 83 \<or> r = 84 \<or> r = 85 \<or> r = 86 \<or> r = 87 \<or> r = 88 \<or>
        r = 89 \<or> r = 90"
    by arith
  then show ?thesis
    unfolding asciiLetters_def S_def by (elim disjE) simp_all
next
  case False
  then show ?thesis
    unfolding asciiLetters_def S_def by auto
qed

text \<open>\<^verbatim>\<open>unicode.ToLower\<close> folds every character as the alphabet and the table say.\<close>

lemma caseFold_eq: "caseFold tbl r = unicode_ToLower tbl r"
  by (simp add: caseFold_def unicode_ToLower_def asciiLetters_val)

lemma list_all2_same_image:
  "list_all2 (\<lambda>a b. f a = f b) u t \<longleftrightarrow> map f u = map f t"
proof (induction u arbitrary: t)
  case Nil
  then show ?case by simp
next
  case (Cons a u)
  then show ?case by (cases t) simp_all
qed

text \<open>
  Go's test \<^verbatim>\<open>strings.Contains(strings.ToLower(s), strings.ToLower(t))\<close> decides
  case-insensitive containment.
\<close>

lemma containsFold_iff:
  "containsFold tbl s t \<longleftrightarrow> Contains (ToLower tbl s) (ToLower tbl t)"
proof -
  have fold: "sameUpToCase tbl = (\<lambda>a b. unicode_ToLower tbl a = unicode_ToLower tbl b)"
    by (simp add: sameUpToCase_def caseFold_eq fun_eq_iff)
  have "sublist (map (unicode_ToLower tbl) t) (map (unicode_ToLower tbl) s) \<longleftrightarrow>
        (\<exists>u. sublist u s \<and> map (unicode_ToLower tbl) u = map (unicode_ToLower tbl) t)"
    by (metis map_mono_sublist sublist_map_rightE)
  then show ?thesis
    by (simp add: containsFold_def fold list_all2_same_image Contains_iff_sublist ToLower_def)
qed

subsection \<open>The loops\<close>

lemma tagLoop_eq:
  "tagLoop tbl k v inst ts acc =
     (if \<exists>t \<in> set ts. Key t = k \<and> Contains (ToLower tbl (Value t)) (ToLower tbl v)
      then acc @ [inst] else acc)"
  by (induction ts) auto

lemma tagFilterLoop_eq:
  "tagFilterLoop tbl k v insts acc =
     acc @ filter (\<lambda>i. \<exists>t \<in> set (Tags i). Key t = k \<and> containsFold tbl (Value t) v) insts"
  by (induction insts arbitrary: acc) (simp_all add: tagLoop_eq containsFold_iff)

lemma stateFilterLoop_eq:
  "stateFilterLoop tbl f insts acc = acc @ filter (\<lambda>i. containsFold tbl (State i) f) insts"
  by (induction insts arbitrary: acc) (simp_all add: containsFold_iff)

subsection \<open>The claims about the filter\<close>

text \<open>
  C5: for every instance list, filtering with the empty filter text returns the list
  itself, unchanged and in the same order.
\<close>

theorem filter_empty_identity:
  "filteredInstances tbl insts [] = Some insts"
  by (simp add: filteredInstances_def)

text \<open>
  C3: for every instance list and every filter text that contains a \<^verbatim>\<open>=\<close>, the filter
  returns (without panicking) exactly the instances that have a tag whose key is the text
  before the first \<^verbatim>\<open>=\<close>, compared exactly, and whose value contains the text after the
  first \<^verbatim>\<open>=\<close> case-insensitively. The instances keep their order and each is listed
  once, however many of its tags match. Only the first \<^verbatim>\<open>=\<close> splits: the key has none,
  and whatever follows the first \<^verbatim>\<open>=\<close>, further \<^verbatim>\<open>=\<close> included, is the value.
\<close>

theorem tag_filter_exact:
  assumes "eqRune \<in> set f"
  shows "filteredInstances tbl insts f =
           Some (filter (\<lambda>i. \<exists>t \<in> set (Tags i).
                    Key t = tagKeyOf f \<and> containsFold tbl (Value t) (tagValueOf f)) insts)
         \<and> f = tagKeyOf f @ eqRune # tagValueOf f
         \<and> eqRune \<notin> set (tagKeyOf f)"
proof -
  from assms have ne: "f \<noteq> []" by auto
  have parts: "SplitN2 f (S ''='') = [tagKeyOf f, tagValueOf f]"
    using assms by (simp add: S_equals SplitN2_char tagKeyOf_def tagValueOf_def)
  have "filteredInstances tbl insts f
          = Some (tagFilterLoop tbl (tagKeyOf f) (tagValueOf f) insts [])"
    using assms ne by (simp add: filteredInstances_def parts) (simp add: S_equals Contains_char)
  moreover have "f = tagKeyOf f @ eqRune # tagValueOf f"
    unfolding tagKeyOf_def tagValueOf_def using assms by (rule split_at_first)
  moreover have "eqRune \<notin> set (tagKeyOf f)"
    unfolding tagKeyOf_def by (auto dest: set_takeWhileD)
  ultimately show ?thesis
    by (simp add: tagFilterLoop_eq)
qed

text \<open>
  The specification's example: of the instances tagged \<^verbatim>\<open>Env=Prod\<close>, \<^verbatim>\<open>env=dev\<close>,
  \<^verbatim>\<open>Env\<close> (twice) and \<^verbatim>\<open>Env\<close> with a value ending in U+00C9, the filter
  \<^verbatim>\<open>Env=prod\<close> keeps the first and the third, once each. The filter \<^verbatim>\<open>Env=caf\<close>
  followed by U+00E9 keeps the fourth: the capital E acute of its tag is lowered by the
  table.
\<close>

theorem tag_filter_exact_witness:
  "eqRune \<in> set (S ''Env=prod'')
   \<and> filteredInstances sampleTable [instProd, instDev, instTwoTags, instCafe] (S ''Env=prod'')
       = Some [instProd, instTwoTags]
   \<and> eqRune \<in> set (S ''Env=caf'' @ [0xE9])
   \<and> filteredInstances sampleTable [instProd, instDev, instTwoTags, instCafe] (S ''Env=caf'' @ [0xE9])
       = Some [instCafe]"
proof -
  let ?all = "[instProd, instDev, instTwoTags, instCafe]"
  have h1: "eqRune \<in> set (S ''Env=prod'')" by (simp add: S_def eqRune_def)
  have h2: "eqRune \<in> set (S ''Env=caf'' @ [0xE9])" by (simp add: S_def eqRune_def)
  have e1: "filter (\<lambda>i. \<exists>t \<in> set (Tags i). Key t = tagKeyOf (S ''Env=prod'')
                \<and> containsFold sampleTable (Value t) (tagValueOf (S ''Env=prod''))) ?all
              = [instProd, instTwoTags]"
    unfolding containsFold_iff by code_simp
  have e2: "filter (\<lambda>i. \<exists>t \<in> set (Tags i). Key t = tagKeyOf (S ''Env=caf'' @ [0xE9])
                \<and> containsFold sampleTable (Value t) (tagValueOf (S ''Env=caf'' @ [0xE9]))) ?all
              = [instCafe]"
    unfolding containsFold_iff by code_simp
  from tag_filter_exact [OF h1, of sampleTable ?all]
  have r1: "filteredInstances sampleTable ?all (S ''Env=prod'') = Some [instProd, instTwoTags]"
    unfolding e1 by (rule conjunct1)
  from tag_filter_exact [OF h2, of sampleTable ?all]
  have r2: "filteredInstances sampleTable ?all (S ''Env=caf'' @ [0xE9]) = Some [instCafe]"
    unfolding e2 by (rule conjunct1)
  from h1 r1 h2 r2 show ?thesis by blast
qed

text \<open>With a second \<^verbatim>\<open>=\<close> the value is \<^verbatim>\<open>prod=eu\<close>, which only the third instance has.\<close>

lemma tag_filter_second_equals:
  "filteredInstances sampleTable [instProd, instDev, instTwoTags] (S ''Env=prod=eu'') = Some [instTwoTags]"
  by code_simp

text \<open>
  Up to case \<^verbatim>\<open>P\<close> is \<^verbatim>\<open>p\<close> and is not \<^verbatim>\<open>q\<close>, whatever the table; the Kelvin sign
  is \<^verbatim>\<open>k\<close> and \<^verbatim>\<open>K\<close> by the table's row for it.
\<close>

lemma sameUpToCase_letters:
  "sameUpToCase tbl (of_char CHR ''P'') (of_char CHR ''p'')"
  "\<not> sameUpToCase tbl (of_char CHR ''p'') (of_char CHR ''q'')"
  "sameUpToCase sampleTable 0x212A (of_char CHR ''K'')"
  by (simp_all add: sameUpToCase_def caseFold_def asciiLetters_def S_def sampleTable_def)

text \<open>
  C4: for every instance list and every non-empty filter text without \<^verbatim>\<open>=\<close>, the
  filter returns exactly the instances whose state contains the filter text
  case-insensitively, in their order. No other field is consulted: changing the
  instances in any way that keeps their states changes the result in the same way.
\<close>

theorem state_filter_exact:
  assumes "f \<noteq> []" and "eqRune \<notin> set f"
  shows "filteredInstances tbl insts f = Some (filter (\<lambda>i. containsFold tbl (State i) f) insts)
         \<and> (\<forall>g. (\<forall>i. State (g i) = State i) \<longrightarrow>
               filteredInstances tbl (map g insts) f
                 = map_option (map g) (filteredInstances tbl insts f))"
proof -
  have eq: "filteredInstances tbl xs f = Some (filter (\<lambda>i. containsFold tbl (State i) f) xs)" for xs
    using assms by (simp add: filteredInstances_def S_equals Contains_char stateFilterLoop_eq)
  have "filteredInstances tbl (map g insts) f = map_option (map g) (filteredInstances tbl insts f)"
    if "\<forall>i. State (g i) = State i" for g
    using that by (simp add: eq filter_map comp_def)
  with eq show ?thesis by blast
qed

text \<open>
  The specification's example: the state \<^verbatim>\<open>Running\<close> matches the filter \<^verbatim>\<open>run\<close>, and
  so does \<^verbatim>\<open>running\<close>; \<^verbatim>\<open>stopped\<close> does not. The filter U+0130 matches the same two
  states: the table lowers it to \<^verbatim>\<open>i\<close>.
\<close>

theorem state_filter_exact_witness:
  "S ''run'' \<noteq> [] \<and> eqRune \<notin> set (S ''run'')
   \<and> filteredInstances sampleTable [instProd, instDev, instTwoTags] (S ''run'')
       = Some [instProd, instTwoTags]
   \<and> [0x130] \<noteq> [] \<and> eqRune \<notin> set [0x130]
   \<and> filteredInstances sampleTable [instProd, instDev, instTwoTags] [0x130]
       = Some [instProd, instTwoTags]"
proof -
  let ?all = "[instProd, instDev, instTwoTags]"
  have h1: "S ''run'' \<noteq> []" and h2: "eqRune \<notin> set (S ''run'')"
    by (simp_all add: S_def eqRune_def)
  have h3: "[0x130] \<noteq> ([] :: runes)" and h4: "eqRune \<notin> set [0x130]"
    by (simp_all add: eqRune_def)
  have e1: "filter (\<lambda>i. containsFold sampleTable (State i) (S ''run'')) ?all = [instProd, instTwoTags]"
    unfolding containsFold_iff by code_simp
  have e2: "filter (\<lambda>i. containsFold sampleTable (State i) [0x130]) ?all = [instProd, instTwoTags]"
    unfolding containsFold_iff by code_simp
  from state_filter_exact [OF h1 h2, of sampleTable ?all]
  have r1: "filteredInstances sampleTable ?all (S ''run'') = Some [instProd, instTwoTags]"
    unfolding e1 by (rule conjunct1)
  from state_filter_exact [OF h3 h4, of sampleTable ?all]
  have r2: "filteredInstances sampleTable ?all [0x130] = Some [instProd, instTwoTags]"
    unfolding e2 by (rule conjunct1)
  from h1 h2 r1 h3 h4 r2 show ?thesis by blast
qed

section \<open>The state machine\<close>

subsection \<open>Single steps\<close>

lemma Update_key: "\<not> filtering m \<Longrightarrow> Update tiu m (KeyMsg k) = updateKey m k"
  by (simp add: Update_def)

lemma Update_filtering:
  "filtering m \<Longrightarrow> msg \<noteq> KeyMsg ''enter'' \<Longrightarrow> msg \<noteq> KeyMsg ''esc'' \<Longrightarrow>
   Update tiu m msg =
     (m\<lparr>filterInput := fst (tiu (filterInput m) msg)\<rparr>, snd (tiu (filterInput m) msg))"
  by (simp add: Update_def split: prod.split)

lemma Update_esc:
  "filtering m \<Longrightarrow> Update tiu m (KeyMsg ''esc'') = (m\<lparr>filtering := False\<rparr>, NoCmd)"
  by (simp add: Update_def)

lemma updateKey_c:
  "updateKey m ''c'' =
     (let currentIndex = findIndex (Regions (config m)) (Region (config m)) 0 in
         if currentIndex \<noteq> - 1 then
           (let nextIndex = (currentIndex + 1) mod int (length (Regions (config m))) in
            (m\<lparr>config := (config m)\<lparr>Region := Regions (config m) ! nat nextIndex\<rparr>,
               loading := True\<rparr>, initAWSClient))
         else (m, NoCmd))"
  by (simp add: updateKey_def)

lemma updateKey_f:
  "updateKey m ''f'' = (m\<lparr>filtering := True, filterInput := Focus (filterInput m)\<rparr>, NoCmd)"
  by (simp add: updateKey_def)

lemma updateKey_quit: "updateKey m ''q'' = (m, Quit)" "updateKey m ''ctrl+c'' = (m, Quit)"
  by (simp_all add: updateKey_def)

lemma updateKey_filter: "filter_m (fst (updateKey m k)) = filter_m m"
  by (simp add: updateKey_def Let_def)

lemma updateKey_filterInput:
  "ti_value (filterInput (fst (updateKey m k))) = ti_value (filterInput m)"
  "CharLimit (filterInput (fst (updateKey m k))) = CharLimit (filterInput m)"
  by (simp_all add: updateKey_def Let_def Focus_def)

lemma updateKey_filtering: "filtering (fst (updateKey m k)) \<Longrightarrow> \<not> filtering m \<Longrightarrow> k = ''f''"
  by (simp add: updateKey_def Let_def split: if_splits)

lemma Update_filter_unchanged:
  "msg \<noteq> KeyMsg ''enter'' \<Longrightarrow> filter_m (fst (Update tiu m msg)) = filter_m m"
  by (cases msg) (auto simp: Update_def updateKey_filter Let_def split: prod.split)

subsection \<open>Runs\<close>

lemma run_append: "run tiu m (xs @ ys) = run tiu (run tiu m xs) ys"
  by (induction xs arbitrary: m) simp_all

lemma run_filter_unchanged:
  "KeyMsg ''enter'' \<notin> set msgs \<Longrightarrow> filter_m (run tiu m msgs) = filter_m m"
  by (induction msgs arbitrary: m) (auto simp: Update_filter_unchanged)

lemma run_stays_filtering:
  "filtering m \<Longrightarrow> KeyMsg ''enter'' \<notin> set msgs \<Longrightarrow> KeyMsg ''esc'' \<notin> set msgs \<Longrightarrow>
   filtering (run tiu m msgs)"
  by (induction msgs arbitrary: m) (auto simp: Update_filtering)

subsection \<open>The region list\<close>

lemma findIndex_eq:
  "findIndex rs r i = (if r \<in> set rs then int (i + index_of rs r) else - 1)"
  by (induction rs arbitrary: i) (auto simp: index_of_def)

lemma index_of_less: "x \<in> set xs \<Longrightarrow> index_of xs x < length xs"
  unfolding index_of_def by (induction xs) auto

lemma index_of_nth: "x \<in> set xs \<Longrightarrow> xs ! index_of xs x = x"
  unfolding index_of_def by (induction xs) auto

lemma index_of_first: "j < index_of xs x \<Longrightarrow> xs ! j \<noteq> x"
  unfolding index_of_def
proof (induction xs arbitrary: j)
  case Nil
  then show ?case by simp
next
  case (Cons y ys)
  then show ?case by (cases j) (auto split: if_splits)
qed

subsection \<open>Load completion\<close>

text \<open>
  C2: in a state that is loading and not editing the filter, a load that completed
  without error makes the status \<open>Ready\<close> and replaces the instances by the result; a
  load that completed with an error makes the status \<open>Failed\<close> with that error and
  keeps the instances that were there.
\<close>

theorem load_completed_from_loading:
  assumes "loadStatusOf m = Loading" and "\<not> filtering m"
  shows "Update tiu m (instancesLoadedMsg insts None)
           = (m\<lparr>loading := False, err := None, ec2Instances := insts\<rparr>, NoCmd)
         \<and> loadStatusOf (fst (Update tiu m (instancesLoadedMsg insts None))) = Ready
         \<and> Update tiu m (instancesLoadedMsg insts (Some e))
           = (m\<lparr>loading := False, err := Some e\<rparr>, NoCmd)
         \<and> loadStatusOf (fst (Update tiu m (instancesLoadedMsg insts (Some e)))) = Failed e
         \<and> ec2Instances (fst (Update tiu m (instancesLoadedMsg insts (Some e)))) = ec2Instances m"
  using assms by (simp add: Update_def loadStatusOf_def)

text \<open>
  After a first load and a refresh the list holds one instance; a failed reload keeps
  it, a successful one replaces it.
\<close>

theorem load_completed_from_loading_witness:
  "loadStatusOf afterRefresh = Loading \<and> \<not> filtering afterRefresh
   \<and> ec2Instances afterRefresh = [instProd]
   \<and> loadStatusOf (fst (Update lineEdit afterRefresh (instancesLoadedMsg [instDev] None))) = Ready
   \<and> ec2Instances (fst (Update lineEdit afterRefresh (instancesLoadedMsg [instDev] None))) = [instDev]
   \<and> loadStatusOf (fst (Update lineEdit afterRefresh (instancesLoadedMsg [] (Some ''AccessDenied''))))
       = Failed ''AccessDenied''
   \<and> ec2Instances (fst (Update lineEdit afterRefresh (instancesLoadedMsg [] (Some ''AccessDenied''))))
       = [instProd]"
proof -
  have h1: "loadStatusOf afterRefresh = Loading" by code_simp
  have h2: "\<not> filtering afterRefresh" by code_simp
  have h3: "ec2Instances afterRefresh = [instProd]" by code_simp
  from load_completed_from_loading [OF h1 h2, of lineEdit "[instDev]" "''AccessDenied''"]
    load_completed_from_loading [OF h1 h2, of lineEdit "[]" "''AccessDenied''"]
  show ?thesis using h1 h2 h3 by (simp add: loadStatusOf_def)
qed

subsection \<open>Region cycling\<close>

text \<open>
  C6: outside filter editing, the key \<^verbatim>\<open>c\<close> on a state whose current region occurs in
  the region list sets the region to the entry after its first occurrence, wrapping
  around at the end of the list (the index is within the list), makes the status
  \<open>Loading\<close> and returns the command that rebuilds the client; the client that command
  delivers makes the next step return the load request. When the current region does not
  occur in the list, the state is returned as it was, with no command.
\<close>

theorem region_cycle:
  assumes "\<not> filtering m"
  shows "(Region (config m) \<in> set (Regions (config m)) \<longrightarrow>
            Update tiu m (KeyMsg ''c'') =
              (m\<lparr>config := (config m)\<lparr>Region := Regions (config m) !
                    ((index_of (Regions (config m)) (Region (config m)) + 1)
                       mod length (Regions (config m)))\<rparr>,
                  loading := True\<rparr>, initAWSClient)
            \<and> (index_of (Regions (config m)) (Region (config m)) + 1)
                 mod length (Regions (config m)) < length (Regions (config m))
            \<and> loadStatusOf (fst (Update tiu m (KeyMsg ''c''))) = Loading
            \<and> (\<forall>cl. snd (Update tiu (fst (Update tiu m (KeyMsg ''c''))) (ClientMsg cl))
                   = loadEC2Instances))
         \<and> (Region (config m) \<notin> set (Regions (config m)) \<longrightarrow>
              Update tiu m (KeyMsg ''c'') = (m, NoCmd))"
proof -
  let ?rs = "Regions (config m)" and ?r = "Region (config m)"
  let ?m' = "m\<lparr>config := (config m)\<lparr>Region := ?rs ! ((index_of ?rs ?r + 1) mod length ?rs)\<rparr>,
                  loading := True\<rparr>"
  have absent: "Update tiu m (KeyMsg ''c'') = (m, NoCmd)" if "?r \<notin> set ?rs"
    using assms that by (simp add: Update_key updateKey_c findIndex_eq)
  have found: "Update tiu m (KeyMsg ''c'') = (?m', initAWSClient)" if "?r \<in> set ?rs"
  proof -
    have "nat ((int (index_of ?rs ?r) + 1) mod int (length ?rs))
            = (index_of ?rs ?r + 1) mod length ?rs"
      by (metis nat_int of_nat_1 of_nat_add zmod_int)
    then show ?thesis
      using assms that by (simp add: Update_key updateKey_c findIndex_eq Let_def)
  qed
  have rng: "(index_of ?rs ?r + 1) mod length ?rs < length ?rs" if "?r \<in> set ?rs"
    using that by (cases ?rs) auto
  have st: "loadStatusOf ?m' = Loading"
    by (simp add: loadStatusOf_def)
  have nf: "\<not> filtering ?m'"
    using assms by simp
  have ld: "snd (Update tiu ?m' (ClientMsg cl)) = loadEC2Instances" for cl
    using nf by (simp add: Update_def)
  show ?thesis
  proof (intro conjI impI allI)
    assume a: "?r \<in> set ?rs"
    show "Update tiu m (KeyMsg ''c'') = (?m', initAWSClient)" using a by (rule found)
    show "(index_of ?rs ?r + 1) mod length ?rs < length ?rs" using a by (rule rng)
    show "loadStatusOf (fst (Update tiu m (KeyMsg ''c''))) = Loading"
      unfolding found [OF a] fst_conv by (rule st)
    show "snd (Update tiu (fst (Update tiu m (KeyMsg ''c''))) (ClientMsg cl)) = loadEC2Instances"
      for cl
      unfolding found [OF a] fst_conv by (rule ld)
  next
    assume "?r \<notin> set ?rs"
    then show "Update tiu m (KeyMsg ''c'') = (m, NoCmd)" by (rule absent)
  qed
qed

text \<open>
  The specification's example: from \<^verbatim>\<open>eu-west-1\<close>, the last of three regions, \<^verbatim>\<open>c\<close>
  wraps around to \<^verbatim>\<open>us-east-1\<close>. With a current region that is not in the list,
  \<^verbatim>\<open>c\<close> changes nothing.
\<close>

theorem region_cycle_witness:
  "\<not> filtering (initialModel sampleConfig)
   \<and> Update lineEdit (initialModel sampleConfig) (KeyMsg ''c'')
       = ((initialModel sampleConfig)\<lparr>config := sampleConfig\<lparr>Region := ''us-east-1''\<rparr>, loading := True\<rparr>,
          initAWSClient)
   \<and> \<not> filtering (initialModel strayRegion)
   \<and> Update lineEdit (initialModel strayRegion) (KeyMsg ''c'') = (initialModel strayRegion, NoCmd)"
proof -
  have h: "\<not> filtering (initialModel c)" for c by (simp add: initialModel_def)
  have c: "config (initialModel c) = c" for c by (simp add: initialModel_def)
  have i: "index_of (Regions sampleConfig) (Region sampleConfig) = 2"
    by (simp add: sampleConfig_def index_of_def)
  have r: "Regions sampleConfig ! ((2 + 1) mod length (Regions sampleConfig)) = ''us-east-1''"
    by (simp add: sampleConfig_def)
  have a: "Region sampleConfig \<in> set (Regions sampleConfig)"
    by (simp add: sampleConfig_def)
  have b: "Region strayRegion \<notin> set (Regions strayRegion)"
    by (simp add: strayRegion_def)
  from region_cycle [OF h, of sampleConfig lineEdit] a
  have 1: "Update lineEdit (initialModel sampleConfig) (KeyMsg ''c'')
       = ((initialModel sampleConfig)\<lparr>config := sampleConfig\<lparr>Region := ''us-east-1''\<rparr>, loading := True\<rparr>,
          initAWSClient)"
    unfolding c i r by blast
  from region_cycle [OF h, of strayRegion lineEdit] b
  have 2: "Update lineEdit (initialModel strayRegion) (KeyMsg ''c'') = (initialModel strayRegion, NoCmd)"
    unfolding c by blast
  from 1 2 h show ?thesis by blast
qed

subsection \<open>Filter editing\<close>

text \<open>
  C7, as the code has it: filter editing is entered by the key \<^verbatim>\<open>f\<close> and by nothing
  else, from a state that is not editing, on whichever screen is current: the step sets
  the flag, focuses the input and leaves every other field, the screen included, as it
  was. While editing, no message changes the screen; so the screen of an editing state is
  the one on which \<^verbatim>\<open>f\<close> was pressed.
\<close>

theorem filter_entry:
  assumes "\<not> filtering m"
  shows "Update tiu m (KeyMsg ''f'')
           = (m\<lparr>filtering := True, filterInput := Focus (filterInput m)\<rparr>, NoCmd)
         \<and> (\<forall>msg. filtering (fst (Update tiu m msg)) \<longrightarrow> msg = KeyMsg ''f'')
         \<and> (\<forall>m' msg. filtering m' \<longrightarrow> currentScreen (fst (Update tiu m' msg)) = currentScreen m')"
proof -
  have a: "Update tiu m (KeyMsg ''f'')
           = (m\<lparr>filtering := True, filterInput := Focus (filterInput m)\<rparr>, NoCmd)"
    using assms by (simp add: Update_key updateKey_f)
  have b: "msg = KeyMsg ''f''" if "filtering (fst (Update tiu m msg))" for msg
  proof (cases msg)
    case (KeyMsg k)
    with that assms have "filtering (fst (updateKey m k))" by (simp add: Update_key)
    then have "k = ''f''" using assms by (rule updateKey_filtering)
    with KeyMsg show ?thesis by simp
  next
    case (ClientMsg cl)
    with that assms show ?thesis by (simp add: Update_def)
  next
    case (instancesLoadedMsg insts e)
    with that assms show ?thesis by (simp add: Update_def Let_def split: if_splits)
  next
    case (WindowSizeMsg w h)
    with that assms show ?thesis by (simp add: Update_def)
  next
    case (OtherMsg n)
    with that assms show ?thesis by (simp add: Update_def)
  qed
  have c: "currentScreen (fst (Update tiu m' msg)) = currentScreen m'" if "filtering m'" for m' msg
    using that by (simp add: Update_def split: prod.split)
  from a b c show ?thesis by blast
qed

text \<open>On the EKS screen, \<^verbatim>\<open>f\<close> opens the filter prompt and the screen stays.\<close>

theorem filter_entry_witness:
  "\<not> filtering (run lineEdit (initialModel sampleConfig) [KeyMsg ''3''])
   \<and> filtering (fst (Update lineEdit (run lineEdit (initialModel sampleConfig) [KeyMsg ''3'']) (KeyMsg ''f'')))
   \<and> currentScreen (fst (Update lineEdit (run lineEdit (initialModel sampleConfig) [KeyMsg ''3'']) (KeyMsg ''f'')))
       = eksScreen"
proof -
  have h: "\<not> filtering (run lineEdit (initialModel sampleConfig) [KeyMsg ''3''])" by code_simp
  have s: "currentScreen (run lineEdit (initialModel sampleConfig) [KeyMsg ''3'']) = eksScreen"
    by code_simp
  from filter_entry [OF h, of lineEdit]
  have "Update lineEdit (run lineEdit (initialModel sampleConfig) [KeyMsg ''3'']) (KeyMsg ''f'')
           = ((run lineEdit (initialModel sampleConfig) [KeyMsg ''3''])\<lparr>filtering := True,
                filterInput := Focus (filterInput (run lineEdit (initialModel sampleConfig) [KeyMsg ''3'']))\<rparr>, NoCmd)"
    by blast
  with h s show ?thesis by simp
qed

text \<open>
  The claim that an editing state is always on the EC2 screen fails: the keys \<^verbatim>\<open>2\<close>
  and \<^verbatim>\<open>f\<close> from the initial state give a state that edits the filter on the S3
  screen.
\<close>

theorem filter_entry_counterexample:
  "filtering onS3Filtering \<and> currentScreen onS3Filtering = s3Screen"
  by code_simp

lemma run_f_enter:
  "\<not> filtering m \<Longrightarrow>
   filter_m (run tiu m [KeyMsg ''f'', KeyMsg ''enter'']) = ti_value (filterInput m)"
  by (simp add: Update_key updateKey_f Update_def Focus_def)

text \<open>
  C8, as the code has it: from a state that is not editing, after \<^verbatim>\<open>f\<close> and any
  messages that are neither \<^verbatim>\<open>enter\<close> nor \<^verbatim>\<open>esc\<close> (whatever is typed), the state is
  editing; \<^verbatim>\<open>esc\<close> then clears the editing flag and changes nothing else. So the
  committed filter is the one from before \<^verbatim>\<open>f\<close>, whatever was typed. The input buffer
  is not discarded: the text input is left as it was when \<^verbatim>\<open>esc\<close> was pressed, and
  \<^verbatim>\<open>f\<close> followed by \<^verbatim>\<open>enter\<close> then commits what it holds. In every editing state
  \<^verbatim>\<open>esc\<close> clears the flag only.
\<close>

theorem esc_keeps_filter:
  assumes "\<not> filtering m0" and "KeyMsg ''enter'' \<notin> set typed" and "KeyMsg ''esc'' \<notin> set typed"
  shows "filtering (run tiu m0 (KeyMsg ''f'' # typed))
         \<and> run tiu m0 (KeyMsg ''f'' # typed @ [KeyMsg ''esc''])
             = (run tiu m0 (KeyMsg ''f'' # typed))\<lparr>filtering := False\<rparr>
         \<and> filter_m (run tiu m0 (KeyMsg ''f'' # typed @ [KeyMsg ''esc''])) = filter_m m0
         \<and> filterInput (run tiu m0 (KeyMsg ''f'' # typed @ [KeyMsg ''esc'']))
             = filterInput (run tiu m0 (KeyMsg ''f'' # typed))
         \<and> filter_m (run tiu m0 (KeyMsg ''f'' # typed @ [KeyMsg ''esc'', KeyMsg ''f'', KeyMsg ''enter'']))
             = ti_value (filterInput (run tiu m0 (KeyMsg ''f'' # typed)))
         \<and> (\<forall>m. filtering m \<longrightarrow> Update tiu m (KeyMsg ''esc'') = (m\<lparr>filtering := False\<rparr>, NoCmd))"
proof -
  let ?m1 = "run tiu m0 (KeyMsg ''f'' # typed)"
  let ?m2 = "run tiu m0 (KeyMsg ''f'' # typed @ [KeyMsg ''esc''])"
  have entered: "filtering (fst (Update tiu m0 (KeyMsg ''f'')))"
    using assms(1) by (simp add: Update_key updateKey_f)
  have f1: "filtering ?m1"
    using run_stays_filtering [OF entered assms(2,3)] by simp
  have "?m2 = fst (Update tiu ?m1 (KeyMsg ''esc''))"
    using run_append [of tiu m0 "KeyMsg ''f'' # typed" "[KeyMsg ''esc'']"] by simp
  then have r: "?m2 = ?m1\<lparr>filtering := False\<rparr>"
    using f1 by (simp only: Update_esc fst_conv)
  have "KeyMsg ''enter'' \<notin> set (KeyMsg ''f'' # typed)"
    using assms(2) by simp
  then have "filter_m ?m1 = filter_m m0"
    by (rule run_filter_unchanged)
  then have k: "filter_m ?m2 = filter_m m0"
    unfolding r by simp
  have b: "filterInput ?m2 = filterInput ?m1"
    unfolding r by simp
  have nf: "\<not> filtering ?m2"
    unfolding r by simp
  have "run tiu m0 (KeyMsg ''f'' # typed @ [KeyMsg ''esc'', KeyMsg ''f'', KeyMsg ''enter''])
          = run tiu ?m2 [KeyMsg ''f'', KeyMsg ''enter'']"
    using run_append [of tiu m0 "KeyMsg ''f'' # typed @ [KeyMsg ''esc'']"
        "[KeyMsg ''f'', KeyMsg ''enter'']"] by simp
  then have c: "filter_m (run tiu m0 (KeyMsg ''f'' # typed @ [KeyMsg ''esc'', KeyMsg ''f'', KeyMsg ''enter'']))
          = ti_value (filterInput ?m1)"
    using run_f_enter [OF nf, of tiu] b by simp
  have e: "\<forall>m. filtering m \<longrightarrow> Update tiu m (KeyMsg ''esc'') = (m\<lparr>filtering := False\<rparr>, NoCmd)"
    by (simp add: Update_esc)
  from f1 r k b c e show ?thesis by blast
qed

text \<open>
  From the initial state: \<^verbatim>\<open>f\<close>, then \<^verbatim>\<open>x\<close>, \<^verbatim>\<open>backspace\<close>, \<^verbatim>\<open>y\<close>, then \<^verbatim>\<open>esc\<close>
  leaves the filter empty, the prompt closed and \<^verbatim>\<open>y\<close> in the input.
\<close>

theorem esc_keeps_filter_witness:
  "\<not> filtering (initialModel sampleConfig)
   \<and> KeyMsg ''enter'' \<notin> set [KeyMsg ''x'', KeyMsg ''backspace'', KeyMsg ''y'']
   \<and> KeyMsg ''esc'' \<notin> set [KeyMsg ''x'', KeyMsg ''backspace'', KeyMsg ''y'']
   \<and> filter_m (run lineEdit (initialModel sampleConfig)
        (KeyMsg ''f'' # [KeyMsg ''x'', KeyMsg ''backspace'', KeyMsg ''y''] @ [KeyMsg ''esc''])) = []
   \<and> \<not> filtering (run lineEdit (initialModel sampleConfig)
        (KeyMsg ''f'' # [KeyMsg ''x'', KeyMsg ''backspace'', KeyMsg ''y''] @ [KeyMsg ''esc'']))
   \<and> ti_value (filterInput (run lineEdit (initialModel sampleConfig)
        (KeyMsg ''f'' # [KeyMsg ''x'', KeyMsg ''backspace'', KeyMsg ''y''] @ [KeyMsg ''esc'']))) = S ''y''"
proof -
  let ?typed = "[KeyMsg ''x'', KeyMsg ''backspace'', KeyMsg ''y'']"
  have h1: "\<not> filtering (initialModel sampleConfig)" by (simp add: initialModel_def)
  have h2: "KeyMsg ''enter'' \<notin> set ?typed" by simp
  have h3: "KeyMsg ''esc'' \<notin> set ?typed" by simp
  have f0: "filter_m (initialModel sampleConfig) = []" by (simp add: initialModel_def)
  have v: "ti_value (filterInput (run lineEdit (initialModel sampleConfig) (KeyMsg ''f'' # ?typed)))
             = S ''y''"
    by code_simp
  from esc_keeps_filter [OF h1 h2 h3, of lineEdit]
  have "run lineEdit (initialModel sampleConfig) (KeyMsg ''f'' # ?typed @ [KeyMsg ''esc''])
        = (run lineEdit (initialModel sampleConfig) (KeyMsg ''f'' # ?typed))\<lparr>filtering := False\<rparr>"
    and "filter_m (run lineEdit (initialModel sampleConfig) (KeyMsg ''f'' # ?typed @ [KeyMsg ''esc'']))
        = filter_m (initialModel sampleConfig)"
    and "filterInput (run lineEdit (initialModel sampleConfig) (KeyMsg ''f'' # ?typed @ [KeyMsg ''esc'']))
        = filterInput (run lineEdit (initialModel sampleConfig) (KeyMsg ''f'' # ?typed))"
    by blast+
  then have "\<not> filtering (run lineEdit (initialModel sampleConfig) (KeyMsg ''f'' # ?typed @ [KeyMsg ''esc'']))"
    and "filter_m (run lineEdit (initialModel sampleConfig) (KeyMsg ''f'' # ?typed @ [KeyMsg ''esc''])) = []"
    and "ti_value (filterInput (run lineEdit (initialModel sampleConfig) (KeyMsg ''f'' # ?typed @ [KeyMsg ''esc''])))
          = S ''y''"
    using v by (simp_all add: f0)
  with h1 h2 h3 show ?thesis by blast
qed

text \<open>
  The claim that \<^verbatim>\<open>esc\<close> discards the input buffer fails: after \<^verbatim>\<open>f\<close>, \<^verbatim>\<open>x\<close> and
  \<^verbatim>\<open>esc\<close> the input still holds \<^verbatim>\<open>x\<close>, and \<^verbatim>\<open>f\<close> and \<^verbatim>\<open>enter\<close> then make \<^verbatim>\<open>x\<close> the
  committed filter.
\<close>

theorem esc_buffer_counterexample:
  "\<not> filtering (run lineEdit (initialModel sampleConfig) typedThenEsc)
   \<and> ti_value (filterInput (run lineEdit (initialModel sampleConfig) typedThenEsc)) = S ''x''
   \<and> filter_m (run lineEdit (initialModel sampleConfig) (typedThenEsc @ [KeyMsg ''f'', KeyMsg ''enter'']))
       = S ''x''"
  by code_simp

subsection \<open>Quitting\<close>

text \<open>
  C9, as the code has it: in every state that is not editing the filter, whatever its
  screen and load status, the key \<^verbatim>\<open>q\<close> and the key \<^verbatim>\<open>ctrl+c\<close> return \<^verbatim>\<open>tea.Quit\<close>
  and leave the state as it is, and the program ends with exit status \<open>0\<close>, whatever
  messages were still to come. In a state that is editing the filter, \<^verbatim>\<open>q\<close> goes to
  the text input like any other keystroke: the step returns the input's new state and
  the input's command, and unless that command is \<^verbatim>\<open>tea.Quit\<close> the program keeps
  running.
\<close>

theorem quit_unless_editing:
  "(\<not> filtering m \<longrightarrow>
      Update tiu m (KeyMsg ''q'') = (m, Quit) \<and> Update tiu m (KeyMsg ''ctrl+c'') = (m, Quit)
      \<and> exitStatus tiu m (KeyMsg ''q'' # rest) = Some 0
      \<and> exitStatus tiu m (KeyMsg ''ctrl+c'' # rest) = Some 0)
   \<and> (filtering m \<longrightarrow>
        Update tiu m (KeyMsg ''q'')
          = (m\<lparr>filterInput := fst (tiu (filterInput m) (KeyMsg ''q''))\<rparr>,
             snd (tiu (filterInput m) (KeyMsg ''q'')))
        \<and> (snd (tiu (filterInput m) (KeyMsg ''q'')) \<noteq> Quit
             \<longrightarrow> exitStatus tiu m [KeyMsg ''q''] = None))"
  by (simp add: Update_key updateKey_quit Update_filtering main_exit_def)

text \<open>
  From the initial state \<^verbatim>\<open>q\<close> ends the program with status \<open>0\<close>; with the filter
  prompt open it does not.
\<close>

theorem quit_unless_editing_witness:
  "\<not> filtering (initialModel sampleConfig)
   \<and> Update lineEdit (initialModel sampleConfig) (KeyMsg ''q'') = (initialModel sampleConfig, Quit)
   \<and> Update lineEdit (initialModel sampleConfig) (KeyMsg ''ctrl+c'') = (initialModel sampleConfig, Quit)
   \<and> exitStatus lineEdit (initialModel sampleConfig) [KeyMsg ''q'', KeyMsg ''r''] = Some 0
   \<and> filtering filteringWhileLoading
   \<and> snd (lineEdit (filterInput filteringWhileLoading) (KeyMsg ''q'')) \<noteq> Quit
   \<and> exitStatus lineEdit filteringWhileLoading [KeyMsg ''q''] = None"
proof -
  have h1: "\<not> filtering (initialModel sampleConfig)" by (simp add: initialModel_def)
  have h2: "filtering filteringWhileLoading" by code_simp
  have h3: "snd (lineEdit (filterInput filteringWhileLoading) (KeyMsg ''q'')) \<noteq> Quit" by code_simp
  from quit_unless_editing [of "initialModel sampleConfig" lineEdit "[KeyMsg ''r'']"]
    quit_unless_editing [of filteringWhileLoading lineEdit] h1 h2 h3
  show ?thesis by blast
qed

text \<open>
  The claim that \<^verbatim>\<open>q\<close> quits in every state fails while the filter is edited: there
  the step does not return \<^verbatim>\<open>tea.Quit\<close>, the program keeps running, and \<^verbatim>\<open>q\<close> is
  appended to the text being typed.
\<close>

theorem quit_counterexample:
  "filtering filteringWhileLoading
   \<and> snd (Update lineEdit filteringWhileLoading (KeyMsg ''q'')) \<noteq> Quit
   \<and> ti_value (filterInput (fst (Update lineEdit filteringWhileLoading (KeyMsg ''q'')))) = S ''q''
   \<and> exitStatus lineEdit filteringWhileLoading [KeyMsg ''q''] = None"
  by code_simp

subsection \<open>The length of the filter\<close>

lemma Update_keeps_limit:
  assumes "respectsCharLimit tiu"
    and "CharLimit (filterInput m) = 20"
    and "length (ti_value (filterInput m)) \<le> 20"
    and "length (filter_m m) \<le> 20"
  shows "CharLimit (filterInput (fst (Update tiu m msg))) = 20
         \<and> length (ti_value (filterInput (fst (Update tiu m msg)))) \<le> 20
         \<and> length (filter_m (fst (Update tiu m msg))) \<le> 20"
proof (cases "filtering m")
  case True
  from assms(1) have lim: "CharLimit (fst (tiu (filterInput m) msg)) = CharLimit (filterInput m)"
    and len: "0 < CharLimit (filterInput m)
          \<and> length (ti_value (filterInput m)) \<le> CharLimit (filterInput m)
        \<longrightarrow> length (ti_value (fst (tiu (filterInput m) msg))) \<le> CharLimit (filterInput m)"
    unfolding respectsCharLimit_def by blast+
  from lim len assms(2,3) have "CharLimit (fst (tiu (filterInput m) msg)) = 20"
    and "length (ti_value (fst (tiu (filterInput m) msg))) \<le> 20"
    by simp_all
  with True assms(2-4) show ?thesis
    by (auto simp: Update_def split: prod.split)
next
  case False
  show ?thesis
  proof (cases msg)
    case (KeyMsg k)
    with False assms(2-4) show ?thesis
      by (simp add: Update_key updateKey_filter updateKey_filterInput)
  next
    case (ClientMsg cl)
    with False assms(2-4) show ?thesis by (simp add: Update_def)
  next
    case (instancesLoadedMsg insts e)
    with False assms(2-4) show ?thesis by (simp add: Update_def Let_def)
  next
    case (WindowSizeMsg w h)
    with False assms(2-4) show ?thesis by (simp add: Update_def)
  next
    case (OtherMsg n)
    with False assms(2-4) show ?thesis by (simp add: Update_def)
  qed
qed

lemma run_keeps_limit:
  assumes "respectsCharLimit tiu"
  shows "CharLimit (filterInput m) = 20 \<Longrightarrow> length (ti_value (filterInput m)) \<le> 20 \<Longrightarrow>
         length (filter_m m) \<le> 20 \<Longrightarrow>
         CharLimit (filterInput (run tiu m msgs)) = 20
         \<and> length (ti_value (filterInput (run tiu m msgs))) \<le> 20
         \<and> length (filter_m (run tiu m msgs)) \<le> 20"
proof (induction msgs arbitrary: m)
  case Nil
  then show ?case by simp
next
  case (Cons x xs)
  from Update_keeps_limit [OF assms Cons.prems, of x]
  have "CharLimit (filterInput (run tiu (fst (Update tiu m x)) xs)) = 20
         \<and> length (ti_value (filterInput (run tiu (fst (Update tiu m x)) xs))) \<le> 20
         \<and> length (filter_m (run tiu (fst (Update tiu m x)) xs)) \<le> 20"
    by (intro Cons.IH) simp_all
  then show ?case by simp
qed

lemma lineEdit_respects: "respectsCharLimit lineEdit"
  unfolding respectsCharLimit_def lineEdit_def
  by (auto simp: S_def split: msg.split)

text \<open>
  Whatever the text input does, the committed filter is empty or a text the input
  held at some earlier moment of the run: \<^verbatim>\<open>enter\<close> is the only writer of
  \<^verbatim>\<open>m.filter\<close>, and it writes \<^verbatim>\<open>m.filterInput.Value()\<close>.
\<close>

lemma Update_filter_cases:
  "filter_m (fst (Update tiu m x)) = filter_m m
   \<or> filter_m (fst (Update tiu m x)) = ti_value (filterInput m)"
proof (cases "filtering m \<and> x = KeyMsg ''enter''")
  case True
  then show ?thesis by (simp add: Update_def)
next
  case False
  then have "filter_m (fst (Update tiu m x)) = filter_m m"
    by (cases "x = KeyMsg ''enter''") (auto simp: Update_filter_unchanged Update_key updateKey_filter)
  then show ?thesis ..
qed

lemma filter_was_typed:
  "filter_m (run tiu (initialModel cfg) msgs) = []
   \<or> (\<exists>k \<le> length msgs. filter_m (run tiu (initialModel cfg) msgs)
          = ti_value (filterInput (run tiu (initialModel cfg) (take k msgs))))"
proof (induction msgs rule: rev_induct)
  case Nil
  then show ?case by (simp add: initialModel_def)
next
  case (snoc x xs)
  let ?m = "run tiu (initialModel cfg) xs"
  have r: "run tiu (initialModel cfg) (xs @ [x]) = fst (Update tiu ?m x)"
    by (simp add: run_append)
  from Update_filter_cases [of tiu ?m x] show ?case
  proof
    assume same: "filter_m (fst (Update tiu ?m x)) = filter_m ?m"
    from snoc.IH show ?thesis
    proof
      assume "filter_m ?m = []"
      with same r show ?thesis by simp
    next
      assume "\<exists>k \<le> length xs. filter_m ?m = ti_value (filterInput (run tiu (initialModel cfg) (take k xs)))"
      then obtain k where k: "k \<le> length xs"
        and v: "filter_m ?m = ti_value (filterInput (run tiu (initialModel cfg) (take k xs)))"
        by blast
      from k have "take k (xs @ [x]) = take k xs" by simp
      with k v same r have "k \<le> length (xs @ [x]) \<and> filter_m (run tiu (initialModel cfg) (xs @ [x]))
          = ti_value (filterInput (run tiu (initialModel cfg) (take k (xs @ [x]))))"
        by simp
      then show ?thesis by blast
    qed
  next
    assume "filter_m (fst (Update tiu ?m x)) = ti_value (filterInput ?m)"
    with r have "length xs \<le> length (xs @ [x]) \<and> filter_m (run tiu (initialModel cfg) (xs @ [x]))
          = ti_value (filterInput (run tiu (initialModel cfg) (take (length xs) (xs @ [x]))))"
      by simp
    then show ?thesis by blast
  qed
qed

text \<open>
  C10: with a text input that keeps to its \<^verbatim>\<open>CharLimit\<close> as the library documents,
  in every state the program reaches from \<^verbatim>\<open>initialModel\<close>, whatever the messages, the
  filter input holds at most 20 characters, and so does the committed filter: a longer
  tag filter cannot be entered.
\<close>

theorem filter_length_bounded:
  assumes "respectsCharLimit tiu"
  shows "length (ti_value (filterInput (run tiu (initialModel cfg) msgs))) \<le> 20
         \<and> length (filter_m (run tiu (initialModel cfg) msgs)) \<le> 20"
proof -
  have "CharLimit (filterInput (initialModel cfg)) = 20"
    and "length (ti_value (filterInput (initialModel cfg))) \<le> 20"
    and "length (filter_m (initialModel cfg)) \<le> 20"
    by (simp_all add: initialModel_def Focus_def textinput_New_def)
  from run_keeps_limit [OF assms this] show ?thesis by blast
qed

text \<open>
  Typing 25 letters into the prompt leaves 20 in the input, and \<^verbatim>\<open>enter\<close> commits
  those 20.
\<close>

theorem filter_length_bounded_witness:
  "respectsCharLimit lineEdit
   \<and> ti_value (filterInput (run lineEdit (initialModel sampleConfig) longTyping))
       = S (replicate 20 (CHR ''a''))
   \<and> length (ti_value (filterInput (run lineEdit (initialModel sampleConfig) longTyping))) \<le> 20
   \<and> filter_m (run lineEdit (initialModel sampleConfig) (longTyping @ [KeyMsg ''enter'']))
       = S (replicate 20 (CHR ''a''))
   \<and> length (filter_m (run lineEdit (initialModel sampleConfig) (longTyping @ [KeyMsg ''enter''])))
       \<le> 20"
proof -
  have 1: "ti_value (filterInput (run lineEdit (initialModel sampleConfig) longTyping))
             = S (replicate 20 (CHR ''a''))"
    by code_simp
  have 2: "filter_m (run lineEdit (initialModel sampleConfig) (longTyping @ [KeyMsg ''enter'']))
             = S (replicate 20 (CHR ''a''))"
    by code_simp
  from filter_length_bounded [OF lineEdit_respects, of sampleConfig longTyping]
    filter_length_bounded [OF lineEdit_respects, of sampleConfig "longTyping @ [KeyMsg ''enter'']"]
    lineEdit_respects 1 2
  show ?thesis by blast
qed

subsection \<open>Load results that arrive while the filter is edited\<close>

text \<open>
  Outside filter editing every load result is applied on arrival: the status and the
  error are those of the result, and the instances are replaced when there is no error.
  So of several results the last to arrive decides.
\<close>

lemma load_applied_when_navigating:
  "\<not> filtering m \<Longrightarrow>
   Update tiu m (instancesLoadedMsg insts e)
     = (m\<lparr>loading := False, err := e,
           ec2Instances := (if e = None then insts else ec2Instances m)\<rparr>, NoCmd)"
  by (simp add: Update_def Let_def)

text \<open>
  While the filter is edited, a load result goes to the text input, whatever that input
  is: the status, the error and the instances stay as they were.
\<close>

lemma load_diverted_while_filtering:
  "filtering m \<Longrightarrow>
   fst (Update tiu m (instancesLoadedMsg insts e))
     = m\<lparr>filterInput := fst (tiu (filterInput m) (instancesLoadedMsg insts e))\<rparr>"
  by (simp add: Update_filtering)

text \<open>
  C1 does not hold of \<^verbatim>\<open>Update\<close>: the client arrives, the user presses \<^verbatim>\<open>f\<close>, and
  then the load completes. Whether it failed or succeeded, the step returns the state it
  was given, still \<open>Loading\<close>: the result, and the error it may carry, are lost.
\<close>

theorem load_result_dropped_while_filtering:
  "filtering filteringWhileLoading
   \<and> loadStatusOf filteringWhileLoading = Loading
   \<and> Update lineEdit filteringWhileLoading (instancesLoadedMsg [] (Some ''AccessDenied''))
       = (filteringWhileLoading, NoCmd)
   \<and> Update lineEdit filteringWhileLoading (instancesLoadedMsg [instProd] None)
       = (filteringWhileLoading, NoCmd)"
  by code_simp

end
